theory Spec2Isabelle
  imports Main
begin

section \<open>The cell-range helpers of \<open>utils.py\<close>\<close>

text \<open>
  The module's pure helpers \<open>_get_col_letter\<close>, \<open>_build_column_keys\<close>,
  \<open>_build_value_range\<close> and \<open>_build_col_range\<close> are embedded as HOL functions.
  Python's unbounded integers are \<open>int\<close>, its byte strings are \<open>string\<close>, a raised
  exception is the \<open>Inl\<close> branch of a sum. A leading underscore is not an Isabelle
  identifier, so the functions keep their names without it.
\<close>

subsection \<open>Python primitives used by the module\<close>

text \<open>
  The exceptions the modelled code can raise: \<open>ValueError\<close> is raised by
  \<open>_get_col_letter\<close> on a negative index (its message is not kept), \<open>IndexError\<close>
  by indexing a string out of range.
\<close>

datatype error = ValueError | IndexError

text \<open>
  \<open>s[i]\<close> on a string: a negative index counts from the end, an index out of range
  raises \<open>IndexError\<close>.
\<close>

definition str_index :: "string \<Rightarrow> int \<Rightarrow> error + char" where
  "str_index s i =
     (let n = int (length s); j = (if i < 0 then n + i else i)
      in if 0 \<le> j \<and> j < n then Inr (s ! nat j) else Inl IndexError)"

text \<open>
  The text that \<open>str.format\<close> substitutes for an integer field: its decimal digits,
  most significant first, after a minus sign when it is negative.
\<close>

definition digit_char :: "nat \<Rightarrow> char" where
  "digit_char d = char_of (48 + d)"

fun str_nat :: "nat \<Rightarrow> string" where
  "str_nat n = (if n < 10 then [digit_char n] else str_nat (n div 10) @ [digit_char (n mod 10)])"

definition str_int :: "int \<Rightarrow> string" where
  "str_int i = (if i < 0 then CHR ''-'' # str_nat (nat (- i)) else str_nat (nat i))"

text \<open>
  \<open>str.upper()\<close> on a byte string: the letters \<open>a\<close> to \<open>z\<close> (codes 97 to 122)
  move to \<open>A\<close> to \<open>Z\<close>, every other character stays.
\<close>

definition upper_char :: "char \<Rightarrow> char" where
  "upper_char c =
     (let n = (of_char c :: nat) in if 97 \<le> n \<and> n \<le> 122 then char_of (n - 32) else c)"

definition upper :: "string \<Rightarrow> string" where
  "upper s = map upper_char s"

subsection \<open>\<open>_get_col_letter\<close>\<close>

text \<open>The two local constants of \<open>_get_col_letter\<close>.\<close>

definition mapping :: string where
  "mapping = ''ABCDEFGHIJKLMNOPQRSTUVWXYZ''"

definition base :: int where
  "base = 26"

text \<open>
  \<open>divmod(index, base)\<close> is floor division and its remainder, which \<open>div\<close> and
  \<open>mod\<close> on \<open>int\<close> are for the positive \<open>base\<close>. In
  \<open>_get_col_letter(quotient - 1) + mapping[remainder]\<close> the recursive call is
  evaluated before the indexing, so its exception comes first.
\<close>

function get_col_letter :: "int \<Rightarrow> error + string" where
  "get_col_letter index =
     (if index < 0 then Inl ValueError
      else
        let quotient = index div base; remainder = index mod base in
        if quotient > 0 then
          (case get_col_letter (quotient - 1) of
             Inl e \<Rightarrow> Inl e
           | Inr letters \<Rightarrow>
               (case str_index mapping remainder of
                  Inl e \<Rightarrow> Inl e
                | Inr c \<Rightarrow> Inr (letters @ [c])))
        else
          (case str_index mapping remainder of
             Inl e \<Rightarrow> Inl e
           | Inr c \<Rightarrow> Inr [c]))"
  by pat_completeness auto
termination
  by (relation "measure nat") (auto simp: base_def)

declare get_col_letter.simps [simp del]

subsection \<open>The range builders\<close>

text \<open>
  \<open>len(values)\<close> is all the builders read of \<open>values\<close>; the elements are of any
  type. \<open>current_row\<close> is an integer, \<open>column_letter\<close> a string.
\<close>

definition build_column_keys :: "'a list \<Rightarrow> error + string" where
  "build_column_keys values =
     (let value = int (length values) - 1 in
      case get_col_letter value of
        Inl e \<Rightarrow> Inl e
      | Inr cell_letter \<Rightarrow> Inr (''A1:'' @ cell_letter @ ''1''))"

definition build_value_range :: "'a list \<Rightarrow> int \<Rightarrow> error + string" where
  "build_value_range values current_row =
     (case get_col_letter (int (length values) - 1) of
        Inl e \<Rightarrow> Inl e
      | Inr end_cell_letter \<Rightarrow>
          Inr (''A'' @ str_int current_row @ '':'' @ end_cell_letter @ str_int current_row))"

definition build_col_range :: "'a list \<Rightarrow> string \<Rightarrow> error + string" where
  "build_col_range values column_letter =
     (let end_row_num = int (length values) + 1;
          col_letter = upper column_letter;
          cell_list = col_letter @ ''2:'' @ col_letter @ str_int end_row_num
      in Inr cell_list)"

subsection \<open>Predicates of the specification\<close>

text \<open>
  A string matches \<open>^[A-Z]+$\<close> when it is not empty and each of its characters has a
  code from 65 (\<open>A\<close>) to 90 (\<open>Z\<close>).
\<close>

definition is_AZ :: "char \<Rightarrow> bool" where
  "is_AZ c = (65 \<le> (of_char c :: nat) \<and> (of_char c :: nat) \<le> 90)"

definition matches_AZ_plus :: "string \<Rightarrow> bool" where
  "matches_AZ_plus s = (s \<noteq> [] \<and> list_all is_AZ s)"

text \<open>
  The order on labels: the shorter label first, and labels of one length in
  lexicographic order of their character codes.
\<close>

fun lex_less :: "string \<Rightarrow> string \<Rightarrow> bool" where
  "lex_less [] [] = False"
| "lex_less [] (y # ys) = True"
| "lex_less (x # xs) [] = False"
| "lex_less (x # xs) (y # ys) =
     ((of_char x :: nat) < of_char y \<or> (x = y \<and> lex_less xs ys))"

definition label_less :: "string \<Rightarrow> string \<Rightarrow> bool" where
  "label_less a b = (length a < length b \<or> (length a = length b \<and> lex_less a b))"

section \<open>Auxiliary lemmas\<close>

subsection \<open>The alphabet and the primitives\<close>

lemma mapping_codes: "\<forall>r \<in> set [0..<26]. (of_char (mapping ! r) :: nat) = 65 + r"
  by code_simp

lemma mapping_nth: "r < 26 \<Longrightarrow> (of_char (mapping ! r) :: nat) = 65 + r"
  using mapping_codes by simp

lemma length_mapping: "length mapping = 26"
  by (simp add: mapping_def)

lemma is_AZ_mapping: "r < 26 \<Longrightarrow> is_AZ (mapping ! r)"
  by (simp add: is_AZ_def mapping_nth)

lemma str_index_mapping:
  "0 \<le> r \<Longrightarrow> r < 26 \<Longrightarrow> str_index mapping r = Inr (mapping ! nat r)"
  by (simp add: str_index_def length_mapping)

lemma str_int_1: "str_int 1 = ''1''"
  by code_simp

lemma upper_char_AZ: "is_AZ c \<Longrightarrow> upper_char c = c"
  by (simp add: is_AZ_def upper_char_def Let_def)

lemma upper_AZ: "list_all is_AZ s \<Longrightarrow> upper s = s"
  by (induction s) (simp_all add: upper_def upper_char_AZ)

lemma upper_char_idem: "upper_char (upper_char c) = upper_char c"
proof (cases "97 \<le> (of_char c :: nat) \<and> (of_char c :: nat) \<le> 122")
  case True
  define n :: nat where "n = of_char c"
  from True have n: "97 \<le> n" "n \<le> 122" by (simp_all add: n_def)
  then have "(n - 32) mod 256 = n - 32" by simp
  then have "(of_char (char_of (n - 32)) :: nat) = n - 32" by simp
  moreover from n have "\<not> 97 \<le> n - 32" by simp
  ultimately have "upper_char (char_of (n - 32)) = char_of (n - 32)"
    unfolding upper_char_def Let_def by (simp only: if_False simp_thms)
  moreover have "upper_char c = char_of (n - 32)"
    using n unfolding upper_char_def Let_def n_def by (simp only: if_True simp_thms)
  ultimately show ?thesis by (simp only:)
next
  case False
  then have "upper_char c = c"
    unfolding upper_char_def Let_def by (simp only: if_False)
  then show ?thesis by (simp only:)
qed

lemma upper_idem: "upper (upper s) = upper s"
  by (simp add: upper_def upper_char_idem)

subsection \<open>The recursion of \<open>get_col_letter\<close>\<close>

lemma get_col_letter_neg: "i < 0 \<Longrightarrow> get_col_letter i = Inl ValueError"
  by (simp add: get_col_letter.simps)

lemma get_col_letter_small:
  "0 \<le> i \<Longrightarrow> i < 26 \<Longrightarrow> get_col_letter i = Inr [mapping ! nat i]"
  by (subst get_col_letter.simps) (simp add: base_def str_index_mapping)

lemma get_col_letter_rec:
  assumes "26 \<le> i" and "get_col_letter (i div 26 - 1) = Inr p"
  shows "get_col_letter i = Inr (p @ [mapping ! nat (i mod 26)])"
proof -
  have "0 < i div 26" using assms(1) by simp
  moreover have "str_index mapping (i mod 26) = Inr (mapping ! nat (i mod 26))"
    by (rule str_index_mapping) simp_all
  ultimately show ?thesis
    using assms by (subst get_col_letter.simps) (simp add: base_def Let_def)
qed

lemma quot_pred_nonneg: "26 \<le> (j::int) \<Longrightarrow> 0 \<le> j div 26 - 1"
  by simp

lemma get_col_letter_label:
  "0 \<le> i \<Longrightarrow> \<exists>s. get_col_letter i = Inr s \<and> matches_AZ_plus s"
proof (induction i rule: get_col_letter.induct)
  case (1 index)
  show ?case
  proof (cases "index < 26")
    case True
    with "1.prems" have "get_col_letter index = Inr [mapping ! nat index]"
      by (simp add: get_col_letter_small)
    moreover have "matches_AZ_plus [mapping ! nat index]"
      using True "1.prems" by (simp add: matches_AZ_plus_def is_AZ_mapping)
    ultimately show ?thesis by blast
  next
    case False
    then have big: "26 \<le> index" by simp
    then have "0 < index div base" "0 \<le> index div base - 1"
      by (simp_all add: base_def)
    with "1.IH" [OF _ refl refl] "1.prems"
    obtain p where p: "get_col_letter (index div base - 1) = Inr p" "matches_AZ_plus p"
      by auto
    from p(1) have "get_col_letter index = Inr (p @ [mapping ! nat (index mod 26)])"
      using big by (simp add: get_col_letter_rec base_def)
    moreover have "matches_AZ_plus (p @ [mapping ! nat (index mod 26)])"
      using p(2) by (simp add: matches_AZ_plus_def is_AZ_mapping)
    ultimately show ?thesis by blast
  qed
qed

lemma get_col_letter_rel_decreases:
  "get_col_letter_rel k index \<Longrightarrow>
   k = index div base - 1 \<and> 0 < index div base \<and> 0 \<le> k \<and> k < index"
  by (erule get_col_letter_rel.cases) (auto simp: base_def)

lemma get_col_letter_dom_all: "get_col_letter_dom index"
proof (induction "nat index" arbitrary: index rule: less_induct)
  case less
  show ?case
  proof (rule accpI)
    fix k
    assume "get_col_letter_rel k index"
    then have "0 \<le> k \<and> k < index"
      by (simp add: get_col_letter_rel_decreases)
    then have "nat k < nat index" by simp
    then show "get_col_letter_dom k" by (rule less)
  qed
qed

subsection \<open>The order of the labels\<close>

lemma lex_less_snoc_same:
  "(of_char x :: nat) < of_char y \<Longrightarrow> lex_less (a @ [x]) (a @ [y])"
  by (induction a) simp_all

lemma lex_less_snoc:
  "length a = length b \<Longrightarrow> lex_less a b \<Longrightarrow> lex_less (a @ [x]) (b @ [y])"
  by (induction a b rule: list_induct2) auto

lemma lex_less_irrefl: "\<not> lex_less a a"
  by (induction a) simp_all

lemma label_less_snoc: "label_less a b \<Longrightarrow> label_less (a @ [x]) (b @ [y])"
  by (auto simp: label_less_def lex_less_snoc)

lemma label_less_irrefl: "\<not> label_less a a"
  by (simp add: label_less_def lex_less_irrefl)

lemma get_col_letter_mono:
  "0 \<le> i \<Longrightarrow> i < j \<Longrightarrow>
   \<exists>a b. get_col_letter i = Inr a \<and> get_col_letter j = Inr b \<and> label_less a b"
proof (induction j arbitrary: i rule: get_col_letter.induct)
  case (1 j)
  show ?case
  proof (cases "j < 26")
    case True
    with "1.prems" have "get_col_letter i = Inr [mapping ! nat i]"
      "get_col_letter j = Inr [mapping ! nat j]"
      by (simp_all add: get_col_letter_small)
    moreover have "label_less [mapping ! nat i] [mapping ! nat j]"
      using True "1.prems" by (simp add: label_less_def mapping_nth)
    ultimately show ?thesis by blast
  next
    case False
    then have bigj: "26 \<le> j" by simp
    then have qj: "0 < j div base" "\<not> j < 0" by (simp_all add: base_def)
    show ?thesis
    proof (cases "i < 26")
      case True
      from get_col_letter_label [OF quot_pred_nonneg [OF bigj]]
      obtain p where p: "get_col_letter (j div 26 - 1) = Inr p" "p \<noteq> []"
        by (auto simp: matches_AZ_plus_def)
      from p(1) bigj have "get_col_letter j = Inr (p @ [mapping ! nat (j mod 26)])"
        by (rule get_col_letter_rec [rotated])
      moreover from True "1.prems" have "get_col_letter i = Inr [mapping ! nat i]"
        by (simp add: get_col_letter_small)
      moreover have "label_less [mapping ! nat i] (p @ [mapping ! nat (j mod 26)])"
        using p(2) by (cases p) (simp_all add: label_less_def)
      ultimately show ?thesis by blast
    next
      case False
      then have bigi: "26 \<le> i" by simp
      have le: "i div 26 \<le> j div 26"
        using "1.prems" by (simp add: zdiv_mono1)
      show ?thesis
      proof (cases "i div 26 = j div 26")
        case True
        from get_col_letter_label [OF quot_pred_nonneg [OF bigj]]
        obtain p where p: "get_col_letter (j div 26 - 1) = Inr p"
          by auto
        have "get_col_letter j = Inr (p @ [mapping ! nat (j mod 26)])"
          using bigj p by (rule get_col_letter_rec)
        moreover have "get_col_letter i = Inr (p @ [mapping ! nat (i mod 26)])"
          using bigi p True by (simp add: get_col_letter_rec)
        moreover have "i mod 26 < j mod 26"
          using True "1.prems" by (metis add_less_cancel_left mult_div_mod_eq)
        then have "label_less (p @ [mapping ! nat (i mod 26)]) (p @ [mapping ! nat (j mod 26)])"
          by (simp add: label_less_def lex_less_snoc_same mapping_nth nat_less_iff)
        ultimately show ?thesis by blast
      next
        case False
        with le have "i div 26 - 1 < j div base - 1" "0 \<le> i div 26 - 1"
          using bigi by (simp_all add: base_def)
        from "1.IH" [OF qj(2) refl refl qj(1) this(2) this(1)]
        obtain a b where ab: "get_col_letter (i div 26 - 1) = Inr a"
          "get_col_letter (j div 26 - 1) = Inr b" "label_less a b"
          by (auto simp: base_def)
        have "get_col_letter i = Inr (a @ [mapping ! nat (i mod 26)])"
          using bigi ab(1) by (rule get_col_letter_rec)
        moreover have "get_col_letter j = Inr (b @ [mapping ! nat (j mod 26)])"
          using bigj ab(2) by (rule get_col_letter_rec)
        ultimately show ?thesis using ab(3) by (simp add: label_less_snoc)
      qed
    qed
  qed
qed

lemma get_col_letter_neq:
  assumes "0 \<le> i" and "i < j"
  shows "get_col_letter i \<noteq> get_col_letter j"
proof
  assume eq: "get_col_letter i = get_col_letter j"
  from get_col_letter_mono [OF assms] obtain a b
    where "get_col_letter i = Inr a" "get_col_letter j = Inr b" "label_less a b"
    by blast
  with eq show False by (simp add: label_less_irrefl)
qed

subsection \<open>The builders in terms of the label\<close>

lemma build_column_keys_Inr:
  "get_col_letter (int (length values) - 1) = Inr l \<Longrightarrow>
   build_column_keys values = Inr (''A1:'' @ l @ ''1'')"
  by (simp add: build_column_keys_def)

lemma build_value_range_Inr:
  "get_col_letter (int (length values) - 1) = Inr l \<Longrightarrow>
   build_value_range values row = Inr (''A'' @ str_int row @ '':'' @ l @ str_int row)"
  by (simp add: build_value_range_def)

lemma build_col_range_eq:
  "build_col_range values L =
   Inr (upper L @ ''2:'' @ upper L @ str_int (int (length values) + 1))"
  by (simp add: build_col_range_def Let_def)

section \<open>The properties of the specification\<close>

text \<open>
  C1: \<open>_get_col_letter\<close> maps a zero-based column index to its bijective base-26
  label; the worked values are 0 to A, 25 to Z, 26 to AA, 27 to AB, 51 to AZ, 52 to BA,
  701 to ZZ and 702 to AAA.
\<close>

theorem get_col_letter_worked_values:
  "get_col_letter 0 = Inr ''A'' \<and> get_col_letter 25 = Inr ''Z'' \<and>
   get_col_letter 26 = Inr ''AA'' \<and> get_col_letter 27 = Inr ''AB'' \<and>
   get_col_letter 51 = Inr ''AZ'' \<and> get_col_letter 52 = Inr ''BA'' \<and>
   get_col_letter 701 = Inr ''ZZ'' \<and> get_col_letter 702 = Inr ''AAA''"
  by code_simp

text \<open>
  C2: on a list of at least one value \<open>_build_column_keys\<close> returns \<open>A1:\<close>, the
  label of the index \<open>len(values) - 1\<close> and \<open>1\<close>; 29 values give \<open>A1:AC1\<close>; on a
  list of no value it raises \<open>ValueError\<close>.
\<close>

theorem build_column_keys_header_range:
  "(1 \<le> length values \<longrightarrow>
      (\<exists>label. get_col_letter (int (length values) - 1) = Inr label \<and>
         build_column_keys values = Inr (''A1:'' @ label @ ''1''))) \<and>
   (int (length values) \<le> 0 \<longrightarrow> build_column_keys values = Inl ValueError) \<and>
   build_column_keys (replicate 29 x) = Inr ''A1:AC1''"
proof (intro conjI impI)
  assume "1 \<le> length values"
  then have "0 \<le> int (length values) - 1" by arith
  from get_col_letter_label [OF this] obtain label
    where "get_col_letter (int (length values) - 1) = Inr label" by blast
  then show "\<exists>label. get_col_letter (int (length values) - 1) = Inr label \<and>
      build_column_keys values = Inr (''A1:'' @ label @ ''1'')"
    by (simp add: build_column_keys_Inr)
next
  assume "int (length values) \<le> 0"
  then show "build_column_keys values = Inl ValueError"
    by (simp add: build_column_keys_def get_col_letter_neg)
next
  have "get_col_letter (int (length (replicate 29 x)) - 1) = Inr ''AC''"
    by code_simp
  then show "build_column_keys (replicate 29 x) = Inr ''A1:AC1''"
    by (simp only: build_column_keys_Inr) simp
qed

theorem build_column_keys_header_range_witness:
  "1 \<le> length [(), ()] \<and> build_column_keys [(), ()] = Inr ''A1:B1'' \<and>
   int (length ([] :: unit list)) \<le> 0 \<and> build_column_keys ([] :: unit list) = Inl ValueError"
proof -
  have b: "get_col_letter 1 = Inr ''B''" by code_simp
  show ?thesis
    using build_column_keys_header_range [of "[(), ()]" "()"]
      build_column_keys_header_range [of "[] :: unit list" "()"] b
    by simp
qed

text \<open>
  C3, as the code has it: on a list of at least one value and for every integer row,
  also a row below 1, \<open>_build_value_range\<close> returns \<open>A\<close>, the row, a colon, the label
  of the index \<open>len(values) - 1\<close> and the row again; three values and row 5 give
  \<open>A5:C5\<close>. It raises \<open>ValueError\<close> exactly when the list has no value.
\<close>

theorem build_value_range_row_range:
  "(1 \<le> length values \<longrightarrow>
      (\<exists>label. get_col_letter (int (length values) - 1) = Inr label \<and>
         build_value_range values row =
           Inr (''A'' @ str_int row @ '':'' @ label @ str_int row))) \<and>
   (build_value_range values row = Inl ValueError \<longleftrightarrow> length values < 1) \<and>
   build_value_range [x, y, z] 5 = Inr ''A5:C5''"
proof (intro conjI impI)
  assume "1 \<le> length values"
  then have "0 \<le> int (length values) - 1" by arith
  from get_col_letter_label [OF this] obtain label
    where "get_col_letter (int (length values) - 1) = Inr label" by blast
  then show "\<exists>label. get_col_letter (int (length values) - 1) = Inr label \<and>
      build_value_range values row = Inr (''A'' @ str_int row @ '':'' @ label @ str_int row)"
    by (simp add: build_value_range_Inr)
next
  show "build_value_range values row = Inl ValueError \<longleftrightarrow> length values < 1"
  proof (cases "length values < 1")
    case True
    then show ?thesis
      by (simp add: build_value_range_def get_col_letter_neg)
  next
    case False
    then have "0 \<le> int (length values) - 1" by arith
    from get_col_letter_label [OF this] obtain label
      where "get_col_letter (int (length values) - 1) = Inr label" by blast
    with False show ?thesis
      by (simp add: build_value_range_Inr)
  qed
next
  have "get_col_letter (int (length [x, y, z]) - 1) = Inr ''C''"
    by code_simp
  moreover have "str_int 5 = ''5''"
    by code_simp
  ultimately show "build_value_range [x, y, z] 5 = Inr ''A5:C5''"
    by (simp only: build_value_range_Inr) simp
qed

theorem build_value_range_row_range_witness:
  "1 \<le> length [(), (), ()] \<and> build_value_range [(), (), ()] (- 3) = Inr ''A-3:C-3''"
proof -
  have c: "get_col_letter 2 = Inr ''C''" by code_simp
  have s: "str_int (- 3) = ''-3''" by code_simp
  show ?thesis
    using build_value_range_row_range [of "[(), (), ()]" "- 3" "()" "()" "()"] c s
    by simp
qed

text \<open>
  C3, as the specification states it, asks for a failure whenever the row is below 1.
  With three values and row 0 the function returns the range \<open>A0:C0\<close>.
\<close>

theorem build_value_range_row_zero_counterexample:
  "(0::int) < 1 \<and> build_value_range [(), (), ()] 0 = Inr ''A0:C0'' \<and>
   build_value_range [(), (), ()] 0 \<noteq> Inl ValueError"
proof -
  have "build_value_range [(), (), ()] 0 = Inr ''A0:C0''" by code_simp
  then show ?thesis by simp
qed

text \<open>
  C4, as the code has it: \<open>_build_col_range\<close> accepts a list of no value without an
  error and returns the uppercased label, \<open>2:\<close>, the uppercased label and \<open>1\<close>, the
  end row being \<open>len(values) + 1\<close>; a label that matches \<open>^[A-Z]+$\<close> is returned as
  given, and the label \<open>A\<close> gives \<open>A2:A1\<close>.
\<close>

theorem build_col_range_no_values:
  "build_col_range ([] :: 'a list) L = Inr (upper L @ ''2:'' @ upper L @ ''1'') \<and>
   (matches_AZ_plus L \<longrightarrow> build_col_range ([] :: 'a list) L = Inr (L @ ''2:'' @ L @ ''1'')) \<and>
   build_col_range ([] :: 'a list) ''A'' = Inr ''A2:A1''"
proof (intro conjI impI)
  show g: "build_col_range ([] :: 'a list) L = Inr (upper L @ ''2:'' @ upper L @ ''1'')"
    by (simp add: build_col_range_eq str_int_1)
  show "build_col_range ([] :: 'a list) L = Inr (L @ ''2:'' @ L @ ''1'')" if "matches_AZ_plus L"
    using that g by (simp add: matches_AZ_plus_def upper_AZ)
  show "build_col_range ([] :: 'a list) ''A'' = Inr ''A2:A1''"
    by code_simp
qed

theorem build_col_range_no_values_witness:
  "matches_AZ_plus ''BC'' \<and> build_col_range ([] :: unit list) ''BC'' = Inr ''BC2:BC1''"
proof -
  have m: "matches_AZ_plus ''BC''" by code_simp
  then have "build_col_range ([] :: unit list) ''BC'' = Inr (''BC'' @ ''2:'' @ ''BC'' @ ''1'')"
    using build_col_range_no_values [where L = "''BC''" and 'a = unit] by blast
  with m show ?thesis by simp
qed

text \<open>
  C4, as the specification states it, gives \<open>A2:A2\<close> for no value and the label
  \<open>A\<close>. The function returns \<open>A2:A1\<close>.
\<close>

theorem build_col_range_no_values_counterexample:
  "build_col_range ([] :: unit list) ''A'' = Inr ''A2:A1'' \<and>
   build_col_range ([] :: unit list) ''A'' \<noteq> Inr ''A2:A2''"
proof -
  have "build_col_range ([] :: unit list) ''A'' = Inr ''A2:A1''" by code_simp
  then show ?thesis by simp
qed

text \<open>
  C5, as the code has it: \<open>_build_col_range\<close> uppercases the label and returns the
  uppercased label, \<open>2:\<close>, the uppercased label and \<open>len(values) + 1\<close>, for every
  label string, so that a label and its uppercase form give the same range and five
  values with the label \<open>b\<close> give \<open>B2:B6\<close>. The label is not validated and the
  function never raises.
\<close>

theorem build_col_range_column_range:
  "build_col_range values L =
     Inr (upper L @ ''2:'' @ upper L @ str_int (int (length values) + 1)) \<and>
   build_col_range values (upper L) = build_col_range values L \<and>
   build_col_range values L \<noteq> Inl e \<and>
   build_col_range [v, w, x, y, z] ''b'' = Inr ''B2:B6''"
proof (intro conjI)
  show "build_col_range values L =
      Inr (upper L @ ''2:'' @ upper L @ str_int (int (length values) + 1))"
    by (rule build_col_range_eq)
  show "build_col_range values (upper L) = build_col_range values L"
    by (simp add: build_col_range_eq upper_idem)
  show "build_col_range values L \<noteq> Inl e"
    by (simp add: build_col_range_eq)
  have "upper ''b'' = ''B''" by code_simp
  moreover have "str_int (int (length [v, w, x, y, z]) + 1) = ''6''" by code_simp
  ultimately show "build_col_range [v, w, x, y, z] ''b'' = Inr ''B2:B6''"
    by (simp only: build_col_range_eq) simp
qed

text \<open>
  C5, as the specification states it, asks for a failure on every label that does not
  match \<open>^[A-Z]+$\<close> once uppercased. The label \<open>a1\<close> does not match, and with one
  value the function returns \<open>A12:A12\<close>.
\<close>

theorem build_col_range_malformed_label_counterexample:
  "\<not> matches_AZ_plus (upper ''a1'') \<and> build_col_range [()] ''a1'' = Inr ''A12:A12'' \<and>
   build_col_range [()] ''a1'' \<noteq> Inl ValueError"
proof -
  have "\<not> matches_AZ_plus (upper ''a1'')" by code_simp
  moreover have "build_col_range [()] ''a1'' = Inr ''A12:A12''" by code_simp
  ultimately show ?thesis by simp
qed

text \<open>
  C6: \<open>_get_col_letter\<close> is strictly monotone: for indices \<open>0 \<le> i < j\<close> both calls
  return a label and the label of \<open>i\<close> comes before the label of \<open>j\<close> in the order
  that compares the lengths first and labels of one length lexicographically; so two
  different indices from 0 on never have the same label.
\<close>

theorem get_col_letter_strictly_monotone:
  "(0 \<le> i \<and> i < j \<longrightarrow>
      (\<exists>a b. get_col_letter i = Inr a \<and> get_col_letter j = Inr b \<and> label_less a b)) \<and>
   (0 \<le> i \<and> 0 \<le> j \<and> i \<noteq> j \<longrightarrow> get_col_letter i \<noteq> get_col_letter j)"
proof (intro conjI impI)
  assume "0 \<le> i \<and> i < j"
  then show "\<exists>a b. get_col_letter i = Inr a \<and> get_col_letter j = Inr b \<and> label_less a b"
    using get_col_letter_mono [of i j] by blast
next
  assume h: "0 \<le> i \<and> 0 \<le> j \<and> i \<noteq> j"
  show "get_col_letter i \<noteq> get_col_letter j"
  proof (cases "i < j")
    case True
    with h show ?thesis by (simp add: get_col_letter_neq)
  next
    case False
    with h have "j < i" by simp
    with h have "get_col_letter j \<noteq> get_col_letter i" by (simp add: get_col_letter_neq)
    then show ?thesis by (rule not_sym)
  qed
qed

theorem get_col_letter_strictly_monotone_witness:
  "(0::int) \<le> 25 \<and> (25::int) < 26 \<and> (25::int) \<noteq> 26 \<and>
   get_col_letter 25 = Inr ''Z'' \<and> get_col_letter 26 = Inr ''AA'' \<and>
   label_less ''Z'' ''AA'' \<and> get_col_letter 25 \<noteq> get_col_letter 26"
proof -
  have v: "get_col_letter 25 = Inr ''Z''" "get_col_letter 26 = Inr ''AA''"
    by code_simp+
  show ?thesis
    using get_col_letter_strictly_monotone [of 25 26] v by simp
qed

text \<open>
  C7: \<open>_get_col_letter\<close> raises \<open>ValueError\<close> if and only if its index is negative,
  as for the index \<open>-1\<close>; for every index from 0 on it returns, without an error, a
  string that is not empty and matches \<open>^[A-Z]+$\<close>.
\<close>

theorem get_col_letter_error_iff_negative:
  "(get_col_letter index = Inl ValueError \<longleftrightarrow> index < 0) \<and>
   ((\<exists>e. get_col_letter index = Inl e) \<longleftrightarrow> index < 0) \<and>
   (0 \<le> index \<longrightarrow> (\<exists>s. get_col_letter index = Inr s \<and> s \<noteq> [] \<and> matches_AZ_plus s)) \<and>
   get_col_letter (- 1) = Inl ValueError"
proof (cases "index < 0")
  case True
  then show ?thesis by (simp add: get_col_letter_neg)
next
  case False
  then have "0 \<le> index" by simp
  from get_col_letter_label [OF this] obtain s
    where "get_col_letter index = Inr s" "matches_AZ_plus s" by blast
  with False show ?thesis
    by (simp add: get_col_letter_neg matches_AZ_plus_def)
qed

theorem get_col_letter_error_iff_negative_witness:
  "(0::int) \<le> 27 \<and> get_col_letter 27 = Inr ''AB'' \<and> matches_AZ_plus ''AB'' \<and>
   (- 5 :: int) < 0 \<and> get_col_letter (- 5) = Inl ValueError"
proof -
  have v: "get_col_letter 27 = Inr ''AB''" by code_simp
  show ?thesis
    using get_col_letter_error_iff_negative [of 27] get_col_letter_error_iff_negative [of "- 5"] v
    by simp
qed

text \<open>
  C8: for every list of at least one value the header range is the row range of row 1:
  \<open>_build_column_keys(values)\<close> and \<open>_build_value_range(values, 1)\<close> return the same
  string.
\<close>

theorem build_column_keys_is_value_range_of_row_1:
  "values \<noteq> [] \<Longrightarrow>
   build_column_keys values = build_value_range values 1 \<and>
   (\<exists>range. build_column_keys values = Inr range)"
proof -
  assume "values \<noteq> []"
  then have "0 \<le> int (length values) - 1"
    by (cases "values") simp_all
  from get_col_letter_label [OF this] obtain label
    where l: "get_col_letter (int (length values) - 1) = Inr label" by blast
  then have "build_column_keys values = Inr (''A1:'' @ label @ ''1'')"
    by (rule build_column_keys_Inr)
  moreover from l have "build_value_range values 1 = Inr (''A1:'' @ label @ ''1'')"
    by (simp add: build_value_range_Inr str_int_1)
  ultimately show ?thesis by simp
qed

theorem build_column_keys_is_value_range_of_row_1_witness:
  "[(), (), ()] \<noteq> [] \<and> build_column_keys [(), (), ()] = build_value_range [(), (), ()] 1 \<and>
   build_value_range [(), (), ()] 1 = Inr ''A1:C1''"
proof -
  have v: "build_value_range [(), (), ()] 1 = Inr ''A1:C1''" by code_simp
  show ?thesis
    using build_column_keys_is_value_range_of_row_1 [of "[(), (), ()]"] v by simp
qed

text \<open>
  C9: \<open>_get_col_letter\<close> terminates. Every index is in the domain on which the
  recursion is well-founded; a recursive call is made only with the argument
  \<open>quotient - 1\<close>, where \<open>quotient = index div 26\<close> is positive, and that argument is
  not negative and strictly less than \<open>index\<close>; so for every index from 0 on the
  function returns a label.
\<close>

theorem get_col_letter_terminates:
  "get_col_letter_dom index \<and>
   (get_col_letter_rel k index \<longrightarrow>
      k = index div base - 1 \<and> 0 < index div base \<and> 0 \<le> k \<and> k < index) \<and>
   (0 \<le> index \<longrightarrow> (\<exists>letters. get_col_letter index = Inr letters))"
proof (intro conjI impI)
  show "get_col_letter_dom index"
    by (rule get_col_letter_dom_all)
next
  assume r: "get_col_letter_rel k index"
  from get_col_letter_rel_decreases [OF r]
  show "k = index div base - 1" "0 < index div base" "0 \<le> k" "k < index"
    by simp_all
next
  assume "0 \<le> index"
  from get_col_letter_label [OF this]
  show "\<exists>letters. get_col_letter index = Inr letters" by blast
qed

theorem get_col_letter_terminates_witness:
  "get_col_letter_rel 26 702 \<and> (26::int) = 702 div base - 1 \<and> (26::int) < 702 \<and>
   (0::int) \<le> 702 \<and> get_col_letter 702 = Inr ''AAA''"
proof -
  have r: "get_col_letter_rel 26 702"
    using get_col_letter_rel.intros [of 702 27 0] by (simp add: base_def)
  have v: "get_col_letter 702 = Inr ''AAA''" by code_simp
  show ?thesis
    using get_col_letter_terminates [of 702 26] r v by simp
qed

text \<open>
  C10: the range builders read only the length of the list of values: two lists of
  one length, whatever their elements, give the same result of \<open>_build_column_keys\<close>,
  of \<open>_build_value_range\<close> for every row and of \<open>_build_col_range\<close> for every label.
\<close>

theorem range_builders_depend_on_length_only:
  "length xs = length ys \<Longrightarrow>
   build_column_keys xs = build_column_keys ys \<and>
   build_value_range xs r = build_value_range ys r \<and>
   build_col_range xs L = build_col_range ys L"
  by (simp add: build_column_keys_def build_value_range_def build_col_range_def)

theorem range_builders_depend_on_length_only_witness:
  "length [1, 2 :: nat] = length [''secret'', ''other''] \<and>
   build_column_keys [1, 2 :: nat] = build_column_keys [''secret'', ''other''] \<and>
   build_value_range [1, 2 :: nat] 7 = build_value_range [''secret'', ''other''] 7 \<and>
   build_col_range [1, 2 :: nat] ''c'' = build_col_range [''secret'', ''other''] ''c''"
  using range_builders_depend_on_length_only
    [of "[1, 2 :: nat]" "[''secret'', ''other'']" 7 "''c''"]
  by simp

end
